theory Spec2Isabelle
  imports Complex_Main "HOL-Library.AList"
begin

section \<open>Ensemble inference (ensemble_inference.py)\<close>

text \<open>
  Python ints are \<open>int\<close>. Python floats are modelled as real numbers: the arithmetic
  of the model is exact, where the code rounds every quotient, product and sum to a
  double. The model therefore says nothing about the last bit of a score, nor about the
  label of a score that lies within rounding distance of the threshold: a score written
  in an example below is the exact value, which the double of the code approximates.
  The properties proved below are about what the rounding of doubles leaves as it is:
  which branch is taken, which divisions are guarded, which votes are counted. The fitted
  scikit-learn models and the scaler are external: a fitted model is the function that
  maps the (scaled) feature vector either to the text of the exception it raised or to
  the pair of what \<open>model.predict\<close> returned (\<open>-1\<close> for an outlier, \<open>1\<close> otherwise) and
  the score from \<open>score_samples\<close> (or \<open>decision_function\<close>). Dictionaries are
  association lists in insertion order, written with \<open>AList.update\<close> as a Python
  \<open>d[k] = v\<close>.
\<close>

datatype error =
    ValueError
  | FileNotFoundError
  | RuntimeError
  | ZeroDivisionError
  | UnboundLocalError
  | MeanOfEmptySlice

type_synonym features = "real list"

type_synonym fitted_model = "features \<Rightarrow> string + (int \<times> real)"

datatype vote = is_Vote: Vote (prediction: int) (score: real) | Failed (err: string)

record ensemble_detector =
  strategy :: string
  threshold :: real
  models :: "(string \<times> fitted_model) list"
  scaler :: "(features \<Rightarrow> features) option"

definition MODEL_WEIGHTS :: "(string \<times> real) list" where
  "MODEL_WEIGHTS =
     [(''isolation_forest_model.pkl'', 40 / 100),
      (''elliptic_envelope_model.pkl'', 35 / 100),
      (''lof_model_model.pkl'', 25 / 100)]"

definition ENSEMBLE_STRATEGIES :: "string list" where
  "ENSEMBLE_STRATEGIES = [''hard'', ''soft'', ''weighted'']"

text \<open>\<open>str.lower\<close> on the ASCII letters; every other character is left as it is.\<close>

definition lower_char :: "char \<Rightarrow> char" where
  "lower_char c =
     (case map_of (zip ''ABCDEFGHIJKLMNOPQRSTUVWXYZ'' ''abcdefghijklmnopqrstuvwxyz'') c of
        Some l \<Rightarrow> l
      | None \<Rightarrow> c)"

definition lower :: "string \<Rightarrow> string" where
  "lower s = map lower_char s"

definition endswith :: "string \<Rightarrow> string \<Rightarrow> bool" where
  "endswith s suf = (length suf \<le> length s \<and> drop (length s - length suf) s = suf)"

text \<open>Float division: a zero divisor raises.\<close>

definition truediv :: "real \<Rightarrow> real \<Rightarrow> error + real" where
  "truediv a b = (if b = 0 then Inl ZeroDivisionError else Inr (a / b))"

text \<open>
  \<open>max(xs)\<close> raises on an empty list; \<open>max(xs, default=d)\<close> returns \<open>d\<close> there.
\<close>

fun py_max :: "real list \<Rightarrow> error + real" where
  "py_max [] = Inl ValueError"
| "py_max (x # xs) = Inr (foldl max x xs)"

definition py_max_default :: "real list \<Rightarrow> real \<Rightarrow> real" where
  "py_max_default xs d = (case xs of [] \<Rightarrow> d | x # ys \<Rightarrow> foldl max x ys)"

text \<open>
  \<open>np.mean\<close> of an empty list is \<open>nan\<close> (with a warning), which a real number cannot
  hold: the model makes it a visible error value.
\<close>

definition np_mean :: "real list \<Rightarrow> error + real" where
  "np_mean xs = (if xs = [] then Inl MeanOfEmptySlice else Inr (sum_list xs / real (length xs)))"

subsection \<open>Construction\<close>

text \<open>
  The file system as \<open>__init__\<close> sees it: the scaler found at \<open>scaler_path\<close> (\<open>None\<close> when
  the path is not given or does not exist), the scaler found at \<open>models_dir/scaler.pkl\<close>,
  and the listing of \<open>models_dir\<close> (\<open>None\<close> when the directory does not exist), each file
  with what \<open>joblib.load\<close> gives (\<open>None\<close> when loading raises).
\<close>

fun load_loop ::
  "(string \<times> fitted_model option) list \<Rightarrow> (string \<times> fitted_model) list \<Rightarrow>
   (string \<times> fitted_model) list" where
  "load_loop [] ms = ms"
| "load_loop ((model_file, loaded) # rest) ms =
     (case loaded of
        Some model \<Rightarrow> load_loop rest (AList.update model_file model ms)
      | None \<Rightarrow> load_loop rest ms)"

definition load_models ::
  "(string \<times> fitted_model option) list option \<Rightarrow> error + (string \<times> fitted_model) list" where
  "load_models listing =
     (case listing of
        None \<Rightarrow> Inl FileNotFoundError
      | Some files \<Rightarrow>
          (let model_files = filter (\<lambda>(f, _). endswith f ''_model.pkl'') files in
           if model_files = [] then Inl FileNotFoundError
           else
             (let ms = load_loop model_files [] in
              if ms = [] then Inl RuntimeError else Inr ms)))"

definition init ::
  "(string \<times> fitted_model option) list option \<Rightarrow> (features \<Rightarrow> features) option \<Rightarrow>
   (features \<Rightarrow> features) option \<Rightarrow> string \<Rightarrow> real \<Rightarrow> error + ensemble_detector" where
  "init listing scaler_at_path default_scaler strategy_arg threshold_arg =
     (let strat = lower strategy_arg in
      if strat \<notin> set ENSEMBLE_STRATEGIES then Inl ValueError
      else
        (let sc = (case scaler_at_path of Some s \<Rightarrow> Some s | None \<Rightarrow> default_scaler) in
         case load_models listing of
           Inl e \<Rightarrow> Inl e
         | Inr ms \<Rightarrow>
             Inr \<lparr>strategy = strat, threshold = threshold_arg, models = ms, scaler = sc\<rparr>))"

definition set_threshold :: "ensemble_detector \<Rightarrow> real \<Rightarrow> error + ensemble_detector" where
  "set_threshold det thr =
     (if \<not> (0 \<le> thr \<and> thr \<le> 1) then Inl ValueError else Inr (det\<lparr>threshold := thr\<rparr>))"

subsection \<open>The three voting strategies\<close>

definition predictions_of :: "(string \<times> vote) list \<Rightarrow> int list" where
  "predictions_of model_votes = [prediction v. v \<leftarrow> map snd model_votes, is_Vote v]"

definition abs_scores_of :: "(string \<times> vote) list \<Rightarrow> real list" where
  "abs_scores_of model_votes = [\<bar>score v\<bar>. v \<leftarrow> map snd model_votes, is_Vote v]"

definition hard_voting :: "(string \<times> vote) list \<Rightarrow> error + (real \<times> int)" where
  "hard_voting model_votes =
     (let predictions = predictions_of model_votes in
      if predictions = [] then Inr (0, 0)
      else
        (let anomaly_count = sum_list predictions;
             total_models = int (length predictions) in
         case truediv (of_int anomaly_count) (of_int total_models) of
           Inl e \<Rightarrow> Inl e
         | Inr sc \<Rightarrow>
             (case truediv (of_int (total_models * 2)) 3 of
                Inl e \<Rightarrow> Inl e
              | Inr bound \<Rightarrow> Inr (sc, if of_int anomaly_count \<ge> bound then 1 else 0))))"

fun normalize_scores :: "real list \<Rightarrow> real \<Rightarrow> error + real list" where
  "normalize_scores [] max_score = Inr []"
| "normalize_scores (s # ss) max_score =
     (case truediv s max_score of
        Inl e \<Rightarrow> Inl e
      | Inr q \<Rightarrow>
          (case normalize_scores ss max_score of
             Inl e \<Rightarrow> Inl e
           | Inr qs \<Rightarrow> Inr (q # qs)))"

definition soft_voting :: "ensemble_detector \<Rightarrow> (string \<times> vote) list \<Rightarrow> error + (real \<times> int)" where
  "soft_voting det model_votes =
     (let scores = abs_scores_of model_votes in
      if scores = [] then Inr (0, 0)
      else
        (case (if scores \<noteq> [] then py_max scores else Inr 1) of
           Inl e \<Rightarrow> Inl e
         | Inr m \<Rightarrow>
             (let max_score = (if m = 0 then 1 else m) in
              case normalize_scores scores max_score of
                Inl e \<Rightarrow> Inl e
              | Inr normalized_scores \<Rightarrow>
                  (case np_mean normalized_scores of
                     Inl e \<Rightarrow> Inl e
                   | Inr ensemble_score \<Rightarrow>
                       Inr (ensemble_score,
                            if ensemble_score \<ge> threshold det then 1 else 0)))))"

fun weighted_loop ::
  "ensemble_detector \<Rightarrow> (string \<times> vote) list \<Rightarrow> real \<times> real \<Rightarrow> error + (real \<times> real)" where
  "weighted_loop det [] acc = Inr acc"
| "weighted_loop det ((model_name, v) # rest) (weighted_sum, weight_sum) =
     (if is_Vote v then
        (case truediv 1 (real (length (models det))) of
           Inl e \<Rightarrow> Inl e
         | Inr dflt \<Rightarrow>
             (let weight = (case map_of MODEL_WEIGHTS model_name of
                              Some w \<Rightarrow> w | None \<Rightarrow> dflt);
                  sc = \<bar>score v\<bar> in
              weighted_loop det rest (weighted_sum + sc * weight, weight_sum + weight)))
      else weighted_loop det rest (weighted_sum, weight_sum))"

definition weighted_voting ::
  "ensemble_detector \<Rightarrow> (string \<times> vote) list \<Rightarrow> error + (real \<times> int)" where
  "weighted_voting det model_votes =
     (case weighted_loop det model_votes (0, 0) of
        Inl e \<Rightarrow> Inl e
      | Inr (weighted_sum, weight_sum) \<Rightarrow>
          if weight_sum = 0 then Inr (0, 0)
          else
            (case (if weight_sum > 0 then truediv weighted_sum weight_sum else Inr 0) of
               Inl e \<Rightarrow> Inl e
             | Inr avg \<Rightarrow>
                 (let max_score = py_max_default (abs_scores_of model_votes) 1 in
                  case (if max_score > 0 then truediv avg max_score else Inr avg) of
                    Inl e \<Rightarrow> Inl e
                  | Inr ensemble_score \<Rightarrow>
                      Inr (ensemble_score,
                           if ensemble_score \<ge> threshold det then 1 else 0))))"

subsection \<open>predict\<close>

text \<open>
  One pass of the loop over \<open>self.models\<close>: a model that raises anywhere in the
  \<open>try\<close> block is entered with its error text, any other with its binary prediction
  (\<open>1\<close> when \<open>model.predict\<close> gave \<open>-1\<close>) and its score.
\<close>

definition vote_of :: "string + (int \<times> real) \<Rightarrow> vote" where
  "vote_of r =
     (case r of
        Inl e \<Rightarrow> Failed e
      | Inr (p, s) \<Rightarrow> Vote (if p = - 1 then 1 else 0) s)"

fun collect_votes ::
  "(string \<times> fitted_model) list \<Rightarrow> features \<Rightarrow> (string \<times> vote) list \<Rightarrow> (string \<times> vote) list" where
  "collect_votes [] fs model_votes = model_votes"
| "collect_votes ((model_name, model) # rest) fs model_votes =
     collect_votes rest fs (AList.update model_name (vote_of (model fs)) model_votes)"

definition combine :: "ensemble_detector \<Rightarrow> (string \<times> vote) list \<Rightarrow> error + (real \<times> int)" where
  "combine det model_votes =
     (if strategy det = ''hard'' then hard_voting model_votes
      else if strategy det = ''soft'' then soft_voting det model_votes
      else if strategy det = ''weighted'' then weighted_voting det model_votes
      else Inl UnboundLocalError)"

definition predict ::
  "ensemble_detector \<Rightarrow> features \<Rightarrow> error + (real \<times> int \<times> (string \<times> vote) list)" where
  "predict det fs =
     (if length fs \<noteq> 3 then Inl ValueError
      else
        (let features_scaled = (case scaler det of Some f \<Rightarrow> f fs | None \<Rightarrow> fs);
             model_votes = collect_votes (models det) features_scaled [] in
         case combine det model_votes of
           Inl e \<Rightarrow> Inl e
         | Inr (ensemble_score, final_prediction) \<Rightarrow>
             Inr (ensemble_score, final_prediction, model_votes)))"

section \<open>The detection and retraining loop (detect_anomaly.py)\<close>

text \<open>
  One row of the live frame, and of the historical CSV, holds the three features. The
  fitted \<open>StandardScaler\<close> and \<open>IsolationForest\<close> are external: a fitted scaler is its
  \<open>transform\<close> on a row and a fitted forest is its \<open>predict\<close> on a scaled row (\<open>-1\<close> for an
  outlier, \<open>1\<close> otherwise); fitting is a parameter of the model.
\<close>

record sample =
  cpu_usage :: real
  memory_usage :: real
  network_load :: real

record anomaly_record = sample +
  timestamp :: string

type_synonym fitted_scaler = "sample \<Rightarrow> sample"

type_synonym isolation_forest = "sample \<Rightarrow> int"

record sklearn =
  fit_scaler :: "sample list \<Rightarrow> fitted_scaler"
  fit_forest :: "sample list \<Rightarrow> isolation_forest"

definition ANOMALY_THRESHOLD :: int where
  "ANOMALY_THRESHOLD = 12"

definition CPU_SURGE_THRESHOLD :: real where
  "CPU_SURGE_THRESHOLD = 10"

definition MEM_SURGE_THRESHOLD :: real where
  "MEM_SURGE_THRESHOLD = 30"

definition NET_SURGE_THRESHOLD :: real where
  "NET_SURGE_THRESHOLD = 15000"

text \<open>
  The detected-anomalies CSV as \<open>save_detected_anomaly\<close> finds it: no file
  (\<open>os.path.exists\<close> is false), a file on which \<open>pd.read_csv\<close> raises (a file of zero
  bytes raises \<open>EmptyDataError\<close>), or a file that reads as rows.
\<close>

datatype archive_file = Missing | Unreadable | Rows "anomaly_record list"

text \<open>
  The state that one pass of the \<open>while True\<close> loop reads and writes: the global
  \<open>anomaly_counter\<close>, the rows of the historical CSV (what \<open>load_core_memory\<close> returns;
  no file reads as no rows), the detected-anomalies CSV, the pair \<open>model\<close>, \<open>scaler\<close>
  (\<open>ai_is_ready\<close> is that the pair is there) and \<open>last_retrain_time\<close>. The calls to the
  time-series store, to the historical CSV and to the fitting of a model stand outside
  every \<open>try\<close> block of the loop: an exception of one of them ends the program, so a
  pass that completes is one in which they returned, and the model describes such
  passes. The calls inside the \<open>try\<close> block of \<open>save_detected_anomaly\<close> may raise in a
  pass that completes: that is part of the model. The evaluation on the collected
  anomalies and the MLflow logging after a retrain sit in \<open>try\<close> blocks of their own,
  change none of these variables and are left out.
\<close>

record pipeline_state =
  anomaly_counter :: int
  historical :: "sample list"
  detected_anomalies :: archive_file
  artifacts :: "(isolation_forest \<times> fitted_scaler) option"
  last_retrain_time :: real

text \<open>
  What the environment gives to one pass: the frame from \<open>fetch_live_logs\<close> (\<open>None\<close> for
  the empty frame), the two readings of \<open>time.time()\<close> (in the retrain condition and
  after a retrain), \<open>datetime.utcnow().isoformat()\<close>, and whether a call inside the
  \<open>try\<close> block of \<open>save_detected_anomaly\<close> raises for a reason outside the program (no
  permission, a full disk): \<open>None\<close> if none does, otherwise the detected-anomalies CSV
  as the failed call leaves it.
\<close>

record tick =
  live :: "sample option"
  clock_check :: real
  clock_done :: real
  utcnow :: string
  save_raises :: "archive_file option"

text \<open>The local variables of a pass that obtained a sample.\<close>

record report =
  seen :: sample
  model_prediction :: int
  surge :: bool
  ai_status :: int
  retrained :: bool

definition ai_is_ready :: "pipeline_state \<Rightarrow> bool" where
  "ai_is_ready st = (artifacts st \<noteq> None)"

text \<open>\<open>df.tail(n)\<close>: the last \<open>n\<close> rows.\<close>

definition tail_rows :: "nat \<Rightarrow> 'a list \<Rightarrow> 'a list" where
  "tail_rows n xs = drop (length xs - n) xs"

text \<open>
  \<open>save_detected_anomaly\<close> returns nothing; its effect is on the detected-anomalies CSV.
  The whole body is inside \<open>try\<close>: when \<open>read_csv\<close> or \<open>to_csv\<close> raises, the handler logs
  a warning and the function returns, so the record is not written and the pass goes on.
\<close>

definition save_detected_anomaly ::
  "archive_file \<Rightarrow> real \<Rightarrow> real \<Rightarrow> real \<Rightarrow> string \<Rightarrow> archive_file option \<Rightarrow> archive_file" where
  "save_detected_anomaly file cpu_val mem_val net_val now raises =
     (let anomaly_record = \<lparr>cpu_usage = cpu_val, memory_usage = mem_val,
                              network_load = net_val, timestamp = now\<rparr> in
      case raises of
        Some left \<Rightarrow> left
      | None \<Rightarrow>
          (case file of
             Missing \<Rightarrow> Rows [anomaly_record]
           | Unreadable \<Rightarrow> Unreadable
           | Rows existing \<Rightarrow> Rows (tail_rows 1000 (existing @ [anomaly_record]))))"

definition surge_condition :: "sample \<Rightarrow> bool" where
  "surge_condition s =
     (cpu_usage s \<ge> CPU_SURGE_THRESHOLD \<or> memory_usage s \<ge> MEM_SURGE_THRESHOLD
      \<or> network_load s \<ge> NET_SURGE_THRESHOLD)"

definition raw_prediction :: "pipeline_state \<Rightarrow> sample \<Rightarrow> int" where
  "raw_prediction st current_metrics =
     (case artifacts st of
        None \<Rightarrow> 0
      | Some (model, std_scaler) \<Rightarrow>
          if model (std_scaler current_metrics) = - 1 then 1 else 0)"

definition iteration :: "sklearn \<Rightarrow> pipeline_state \<Rightarrow> tick \<Rightarrow> pipeline_state \<times> report option" where
  "iteration sk st t =
     (case live t of
        None \<Rightarrow> (st, None)
      | Some current_metrics \<Rightarrow>
          (let cpu_val = cpu_usage current_metrics;
               mem_val = memory_usage current_metrics;
               net_val = network_load current_metrics;
               model_pred = raw_prediction st current_metrics;
               surge_cond = surge_condition current_metrics;
               counter = (if model_pred = 1 \<and> surge_cond then anomaly_counter st + 1 else 0);
               status = (if model_pred = 1 \<and> surge_cond
                         then (if counter \<ge> ANOMALY_THRESHOLD then 1 else 0) else 0);
               updated_memory = (if model_pred = 0
                                 then tail_rows 2000 (historical st @ [current_metrics])
                                 else historical st);
               anomalies = (if model_pred = 0 then detected_anomalies st
                            else save_detected_anomaly (detected_anomalies st)
                                   cpu_val mem_val net_val (utcnow t) (save_raises t));
               retrain = (length updated_memory \<ge> 30
                          \<and> clock_check t - last_retrain_time st > 300);
               new_scaler = fit_scaler sk updated_memory;
               new_model = fit_forest sk (map new_scaler updated_memory)
           in (\<lparr>anomaly_counter = counter,
                historical = updated_memory,
                detected_anomalies = anomalies,
                artifacts = (if retrain then Some (new_model, new_scaler) else artifacts st),
                last_retrain_time = (if retrain then clock_done t else last_retrain_time st)\<rparr>,
               Some \<lparr>seen = current_metrics, model_prediction = model_pred, surge = surge_cond,
                     ai_status = status, retrained = retrain\<rparr>)))"

text \<open>
  \<open>run_pipeline\<close>: the state at the start of the loop, and the loop over the passes that
  a finite stretch of the environment drives (the loop itself never ends).
\<close>

definition start ::
  "(isolation_forest \<times> fitted_scaler) option \<Rightarrow> real \<Rightarrow> sample list \<Rightarrow>
   archive_file \<Rightarrow> pipeline_state" where
  "start loaded now rows file =
     \<lparr>anomaly_counter = 0, historical = rows, detected_anomalies = file,
      artifacts = loaded, last_retrain_time = now\<rparr>"

fun run_pipeline ::
  "sklearn \<Rightarrow> pipeline_state \<Rightarrow> tick list \<Rightarrow> pipeline_state \<times> report option list" where
  "run_pipeline sk st [] = (st, [])"
| "run_pipeline sk st (t # ts) =
     (case iteration sk st t of
        (st', r) \<Rightarrow>
          (case run_pipeline sk st' ts of
             (st'', rs) \<Rightarrow> (st'', r # rs)))"

section \<open>Notions used to state the properties\<close>

text \<open>
  The vote map that one call of \<open>predict\<close> builds, and the two counts of the spec's
  formula for hard voting: the anomaly votes and the models that voted.
\<close>

definition features_scaled :: "ensemble_detector \<Rightarrow> features \<Rightarrow> features" where
  "features_scaled det fs = (case scaler det of Some f \<Rightarrow> f fs | None \<Rightarrow> fs)"

definition votes_of_call :: "ensemble_detector \<Rightarrow> features \<Rightarrow> (string \<times> vote) list" where
  "votes_of_call det fs = collect_votes (models det) (features_scaled det fs) []"

definition anomaly_votes :: "(string \<times> vote) list \<Rightarrow> nat" where
  "anomaly_votes mv = length (filter (\<lambda>v. is_Vote v \<and> prediction v = 1) (map snd mv))"

definition voting_models :: "(string \<times> vote) list \<Rightarrow> nat" where
  "voting_models mv = length (filter is_Vote (map snd mv))"

text \<open>
  Every prediction entered by \<open>predict\<close> is 0 or 1.
\<close>

definition binary_votes :: "(string \<times> vote) list \<Rightarrow> bool" where
  "binary_votes mv = (\<forall>v \<in> snd ` set mv. is_Vote v \<longrightarrow> prediction v = 0 \<or> prediction v = 1)"

text \<open>
  Three models with the given raw predictions, for the examples of the spec.
\<close>

definition hard_example :: "int \<Rightarrow> int \<Rightarrow> int \<Rightarrow> ensemble_detector" where
  "hard_example p1 p2 p3 =
     \<lparr>strategy = ''hard'', threshold = 1 / 2,
      models = [(''a'', \<lambda>_. Inr (p1, - 1 / 5)),
                (''b'', \<lambda>_. Inr (p2, - 4 / 5)),
                (''c'', \<lambda>_. Inr (p3, - 2 / 5))],
      scaler = None\<rparr>"

text \<open>
  The spec's formula for soft voting: each \<open>|score|\<close> divided by the largest
  \<open>|score|\<close> of the call, then the mean. Where the largest is zero all are zero and the
  formula is read as 0.
\<close>

definition max_abs_score :: "(string \<times> vote) list \<Rightarrow> real" where
  "max_abs_score mv = Max (set (abs_scores_of mv))"

definition soft_score :: "(string \<times> vote) list \<Rightarrow> real" where
  "soft_score mv =
     (if max_abs_score mv = 0 then 0
      else sum_list (map (\<lambda>s. s / max_abs_score mv) (abs_scores_of mv))
           / real (length (abs_scores_of mv)))"

text \<open>
  Up to three models with the given scores and a threshold.
\<close>

definition soft_example :: "real list \<Rightarrow> real \<Rightarrow> ensemble_detector" where
  "soft_example ss thr =
     \<lparr>strategy = ''soft'', threshold = thr,
      models = map (\<lambda>(n, s). (n, \<lambda>_. Inr (1, s))) (zip [''a'', ''b'', ''c''] ss),
      scaler = None\<rparr>"

text \<open>
  The spec's formula for weighted voting: the static weight of a model (1 / number
  of loaded models when the table has none), the entries that carry a score, the
  weighted mean of their \<open>|score|\<close>, and that mean over the largest \<open>|score|\<close>.
\<close>

definition weight_of :: "ensemble_detector \<Rightarrow> string \<Rightarrow> real" where
  "weight_of det model_name =
     (case map_of MODEL_WEIGHTS model_name of
        Some w \<Rightarrow> w
      | None \<Rightarrow> 1 / real (length (models det)))"

definition scoring :: "(string \<times> vote) list \<Rightarrow> (string \<times> vote) list" where
  "scoring mv = filter (\<lambda>(n, v). is_Vote v) mv"

definition weighted_mean :: "ensemble_detector \<Rightarrow> (string \<times> vote) list \<Rightarrow> real" where
  "weighted_mean det mv =
     sum_list (map (\<lambda>(n, v). \<bar>score v\<bar> * weight_of det n) (scoring mv))
     / sum_list (map (\<lambda>(n, v). weight_of det n) (scoring mv))"

definition weighted_score :: "ensemble_detector \<Rightarrow> (string \<times> vote) list \<Rightarrow> real" where
  "weighted_score det mv =
     (if max_abs_score mv = 0 then 0 else weighted_mean det mv / max_abs_score mv)"

text \<open>
  A detector with one model of the weight table, one outside it and one that raises.
\<close>

definition weighted_example :: ensemble_detector where
  "weighted_example =
     \<lparr>strategy = ''weighted'', threshold = 1 / 2,
      models = [(''isolation_forest_model.pkl'', \<lambda>_. Inr (- 1, - 1 / 5)),
                (''custom_model.pkl'', \<lambda>_. Inr (1, - 4 / 5)),
                (''broken_model.pkl'', \<lambda>_. Inl ''boom'')],
      scaler = None\<rparr>"

text \<open>
  With distinct model names the vote map is one entry per model, in order.
\<close>

definition votes_in_order :: "ensemble_detector \<Rightarrow> features \<Rightarrow> (string \<times> vote) list" where
  "votes_in_order det fs = map (\<lambda>(n, m). (n, vote_of (m (features_scaled det fs)))) (models det)"

text \<open>
  A model that always answers normal with score -0.2.
\<close>

definition always_normal :: fitted_model where
  "always_normal = (\<lambda>_. Inr (1, - 1 / 5))"

text \<open>
  A pass qualifies when it had a sample, the raw label was anomaly and the surge
  condition held; \<open>alerts\<close> lists the alert values written by a run, \<open>normals\<close> the
  samples whose raw label was normal, in order.
\<close>

definition qualifying :: "report option \<Rightarrow> bool" where
  "qualifying r =
     (case r of None \<Rightarrow> False | Some rep \<Rightarrow> model_prediction rep = 1 \<and> surge rep)"

definition alerts :: "report option list \<Rightarrow> int list" where
  "alerts rs = concat (map (\<lambda>r. case r of None \<Rightarrow> [] | Some rep \<Rightarrow> [ai_status rep]) rs)"


definition alert_of_count :: "int \<Rightarrow> int" where
  "alert_of_count c = (if c \<ge> 12 then 1 else 0)"

text \<open>
  Concrete data for the examples: a fitting routine, samples, states and passes.
\<close>

definition steady_sklearn :: sklearn where
  "steady_sklearn = \<lparr>fit_scaler = (\<lambda>rows. id), fit_forest = (\<lambda>rows s. 1)\<rparr>"

definition busy :: sample where
  "busy = \<lparr>cpu_usage = 50, memory_usage = 20, network_load = 100\<rparr>"

definition alarmed_state :: pipeline_state where
  "alarmed_state = start (Some (\<lambda>s. - 1, id)) 0 [] Missing"

definition busy_tick :: tick where
  "busy_tick = \<lparr>live = Some busy, clock_check = 10, clock_done = 10, utcnow = ''t'', save_raises = None\<rparr>"

definition quiet :: sample where
  "quiet = \<lparr>cpu_usage = 5, memory_usage = 20, network_load = 100\<rparr>"

definition quiet_tick :: tick where
  "quiet_tick = \<lparr>live = Some quiet, clock_check = 10, clock_done = 10, utcnow = ''t'', save_raises = None\<rparr>"






definition warm_state :: "nat \<Rightarrow> pipeline_state" where
  "warm_state n = start None 0 (replicate n quiet) Missing"

definition late_tick :: "real \<Rightarrow> tick" where
  "late_tick now = \<lparr>live = Some quiet, clock_check = now, clock_done = now + 1, utcnow = ''t'', save_raises = None\<rparr>"

section \<open>Properties of the ensemble\<close>

subsection \<open>Hard voting\<close>

lemma binary_votes_update:
  "binary_votes mv \<Longrightarrow> binary_votes (AList.update k (vote_of r) mv)"
  unfolding binary_votes_def
  by (induction mv) (auto simp: vote_of_def split: sum.splits prod.splits if_splits)

lemma binary_votes_collect:
  "binary_votes mv \<Longrightarrow> binary_votes (collect_votes ms fs mv)"
  by (induction ms fs mv rule: collect_votes.induct) (auto simp: binary_votes_update)

lemma binary_votes_of_call: "binary_votes (votes_of_call det fs)"
  unfolding votes_of_call_def by (rule binary_votes_collect) (simp add: binary_votes_def)

lemma sum_list_binary:
  "binary_votes mv \<Longrightarrow> sum_list (predictions_of mv) = int (anomaly_votes mv)"
  unfolding binary_votes_def predictions_of_def anomaly_votes_def
  by (induction mv) auto

lemma length_predictions: "length (predictions_of mv) = voting_models mv"
  unfolding predictions_of_def voting_models_def
  by (induction mv) auto

lemma hard_voting_eq:
  assumes "voting_models mv \<noteq> 0" "binary_votes mv"
  shows "hard_voting mv =
     Inr (real (anomaly_votes mv) / real (voting_models mv),
          if real (anomaly_votes mv) / real (voting_models mv) \<ge> 2 / 3 then 1 else 0)"
proof -
  have ne: "predictions_of mv \<noteq> []" using assms(1) length_predictions[of mv] by auto
  have pos: "0 < real (voting_models mv)" using assms(1) by simp
  have iff: "(real (voting_models mv) * 2 / 3 \<le> real (anomaly_votes mv)) =
             (2 / 3 \<le> real (anomaly_votes mv) / real (voting_models mv))"
    using pos by (simp add: field_simps)
  show ?thesis
    using ne assms(1) iff
    by (simp add: hard_voting_def Let_def truediv_def sum_list_binary[OF assms(2)] length_predictions)
qed

text \<open>
  Claim C5. With strategy \<open>hard\<close>, a feature vector of length 3 and at least one
  model that produced a prediction, \<open>predict\<close> returns: as ensemble score the number
  of anomaly votes divided by the number of voting models; as label \<open>1\<close> (anomaly)
  exactly when that score is at least 2/3; and the vote map of the call.
\<close>

theorem predict_hard:
  assumes "strategy det = ''hard''" "length fs = 3" "voting_models (votes_of_call det fs) \<noteq> 0"
  shows "predict det fs =
     Inr (real (anomaly_votes (votes_of_call det fs)) / real (voting_models (votes_of_call det fs)),
          (if real (anomaly_votes (votes_of_call det fs)) / real (voting_models (votes_of_call det fs)) \<ge> 2 / 3
           then 1 else 0),
          votes_of_call det fs)"
proof -
  have "combine det (votes_of_call det fs) = hard_voting (votes_of_call det fs)"
    using assms(1) by (simp add: combine_def)
  then show ?thesis
    using assms(2) hard_voting_eq[OF assms(3) binary_votes_of_call]
    by (simp add: predict_def votes_of_call_def features_scaled_def Let_def)
qed

text \<open>
  Three models voting anomaly, anomaly, normal give score 2/3 and label anomaly;
  anomaly, normal, normal give score 1/3 and label normal.
\<close>

theorem predict_hard_witness:
  "predict (hard_example (- 1) (- 1) 1) [1, 2, 3] =
     Inr (2 / 3, 1, [(''a'', Vote 1 (- 1 / 5)), (''b'', Vote 1 (- 4 / 5)), (''c'', Vote 0 (- 2 / 5))])
   \<and> predict (hard_example (- 1) 1 1) [1, 2, 3] =
     Inr (1 / 3, 0, [(''a'', Vote 1 (- 1 / 5)), (''b'', Vote 0 (- 4 / 5)), (''c'', Vote 0 (- 2 / 5))])"
  using predict_hard[of "hard_example (- 1) (- 1) 1" "[1, 2, 3]"]
        predict_hard[of "hard_example (- 1) 1 1" "[1, 2, 3]"]
  by (simp add: votes_of_call_def hard_example_def features_scaled_def vote_of_def
      anomaly_votes_def voting_models_def)

subsection \<open>Soft voting\<close>

text \<open>
  What \<open>soft_voting\<close> returns in the exact arithmetic of the model. The lemmas serve
  the lower bound of the soft score and the absence of a division by zero below.
\<close>

lemma foldl_max_Max: "foldl max x xs = Max (set (x # xs))"
proof (induction xs arbitrary: x)
  case Nil
  show ?case by simp
next
  case (Cons y ys)
  have "Max (set (x # y # ys)) = Max (set (max x y # ys))"
    by (cases "ys = []") (auto simp: max.assoc)
  with Cons show ?case by simp
qed

lemma py_max_Max: "xs \<noteq> [] \<Longrightarrow> py_max xs = Inr (Max (set xs))"
  by (cases xs) (simp_all add: foldl_max_Max del: set_simps)

lemma normalize_scores_map:
  "d \<noteq> 0 \<Longrightarrow> normalize_scores xs d = Inr (map (\<lambda>s. s / d) xs)"
  by (induction xs) (simp_all add: truediv_def)

lemma abs_scores_nonneg: "s \<in> set (abs_scores_of mv) \<Longrightarrow> 0 \<le> s"
  by (auto simp: abs_scores_of_def)

lemma length_abs_scores: "length (abs_scores_of mv) = voting_models mv"
  unfolding abs_scores_of_def voting_models_def by (induction mv) auto

lemma sum_list_all_zero: "(\<And>s. s \<in> set xs \<Longrightarrow> s = (0::real)) \<Longrightarrow> sum_list xs = 0"
  by (induction xs) auto

lemma max_zero_sum_zero:
  assumes "abs_scores_of mv \<noteq> []" "max_abs_score mv = 0"
  shows "sum_list (abs_scores_of mv) = 0"
proof (rule sum_list_all_zero)
  fix s assume that: "s \<in> set (abs_scores_of mv)"
  have "s \<le> Max (set (abs_scores_of mv))" using that by simp
  with assms(2) abs_scores_nonneg[OF that] show "s = 0" by (simp add: max_abs_score_def)
qed

lemma soft_voting_eq:
  assumes "voting_models mv \<noteq> 0"
  shows "soft_voting det mv =
     Inr (soft_score mv, if soft_score mv \<ge> threshold det then 1 else 0)"
proof -
  have ne: "abs_scores_of mv \<noteq> []" using assms length_abs_scores[of mv] by auto
  show ?thesis
  proof (cases "max_abs_score mv = 0")
    case True
    then show ?thesis
      using ne max_zero_sum_zero[OF ne True]
      by (simp add: soft_voting_def Let_def py_max_Max normalize_scores_map np_mean_def
          soft_score_def max_abs_score_def)
  next
    case False
    then show ?thesis
      using ne
      by (simp add: soft_voting_def Let_def py_max_Max normalize_scores_map np_mean_def
          soft_score_def max_abs_score_def)
  qed
qed

subsection \<open>A lower bound for the soft score\<close>

text \<open>
  Claim C10 as stated fails: two models that both score 0 give the soft ensemble
  score 0, which is below 1/2 (no normalised score is 1, since the code replaces the
  zero maximum by 1).
\<close>

theorem soft_zero_scores_counterexample:
  "predict (soft_example [0, 0] (5 / 10)) [1, 2, 3] =
     Inr (0, 0, [(''a'', Vote 0 0), (''b'', Vote 0 0)])
   \<and> voting_models [(''a'', Vote 0 0), (''b'', Vote 0 0)] = 2
   \<and> (0::real) < 1 / real (voting_models [(''a'', Vote 0 0), (''b'', Vote 0 0)])"
  by (simp add: predict_def combine_def soft_voting_def soft_example_def vote_of_def
      abs_scores_of_def truediv_def np_mean_def voting_models_def)

lemma sum_list_ge_member:
  "(\<And>s. s \<in> set xs \<Longrightarrow> (0::real) \<le> s) \<Longrightarrow> x \<in> set xs \<Longrightarrow> x \<le> sum_list xs"
proof (induction xs)
  case Nil
  then show ?case by simp
next
  case (Cons y ys)
  have nonneg: "0 \<le> sum_list ys" using Cons.prems(1) by (simp add: sum_list_nonneg)
  show ?case
  proof (cases "x = y")
    case True
    then show ?thesis using nonneg by simp
  next
    case False
    then have "x \<in> set ys" using Cons.prems(2) by simp
    then have "x \<le> sum_list ys" using Cons.IH Cons.prems(1) by simp
    moreover have "0 \<le> y" using Cons.prems(1) by simp
    ultimately show ?thesis by simp
  qed
qed

lemma soft_score_lower_bound:
  assumes "voting_models mv \<noteq> 0" "max_abs_score mv \<noteq> 0"
  shows "1 / real (voting_models mv) \<le> soft_score mv"
proof -
  let ?xs = "abs_scores_of mv"
  let ?m = "max_abs_score mv"
  have ne: "?xs \<noteq> []" using assms(1) length_abs_scores[of mv] by auto
  have mem: "?m \<in> set ?xs" unfolding max_abs_score_def using ne by (intro Max_in) auto
  have mpos: "0 < ?m" using abs_scores_nonneg[OF mem] assms(2) by simp
  have "?m / ?m \<in> set (map (\<lambda>s. s / ?m) ?xs)" using mem by (simp add: image_iff) blast
  moreover have "0 \<le> t" if "t \<in> set (map (\<lambda>s. s / ?m) ?xs)" for t
    using that mpos abs_scores_nonneg[of _ mv] by auto
  ultimately have "?m / ?m \<le> sum_list (map (\<lambda>s. s / ?m) ?xs)"
    by (intro sum_list_ge_member) auto
  then have "1 \<le> sum_list (map (\<lambda>s. s / ?m) ?xs)" using mpos by simp
  then have "1 / real (voting_models mv) \<le> sum_list (map (\<lambda>s. s / ?m) ?xs) / real (voting_models mv)"
    using assms(1) by (simp add: divide_right_mono)
  then show ?thesis using assms(2) by (simp add: soft_score_def length_abs_scores)
qed

lemma soft_score_single:
  assumes "voting_models mv = 1" "max_abs_score mv \<noteq> 0"
  shows "soft_score mv = 1"
proof -
  have "length (abs_scores_of mv) = 1" using assms(1) by (simp add: length_abs_scores)
  then obtain s where s: "abs_scores_of mv = [s]"
    by (cases "abs_scores_of mv") auto
  then show ?thesis using assms(2) by (simp add: soft_score_def max_abs_score_def)
qed

text \<open>
  Claim C10, amended. With strategy \<open>soft\<close>, when some scoring model has a non-zero
  score, the ensemble score is at least 1/n for n scoring models; with exactly one
  scoring model it is exactly 1, and the label is anomaly for every threshold up to 1.
\<close>

theorem soft_score_at_least_one_nth:
  assumes "strategy det = ''soft''" "length fs = 3"
    and "voting_models (votes_of_call det fs) \<noteq> 0"
    and "max_abs_score (votes_of_call det fs) \<noteq> 0"
  shows "\<exists>sc lab. predict det fs = Inr (sc, lab, votes_of_call det fs)
           \<and> 1 / real (voting_models (votes_of_call det fs)) \<le> sc
           \<and> (voting_models (votes_of_call det fs) = 1 \<longrightarrow>
                sc = 1 \<and> (threshold det \<le> 1 \<longrightarrow> lab = 1))"
proof -
  have "combine det (votes_of_call det fs) = soft_voting det (votes_of_call det fs)"
    using assms(1) by (simp add: combine_def)
  then have "predict det fs =
     Inr (soft_score (votes_of_call det fs),
          (if soft_score (votes_of_call det fs) \<ge> threshold det then 1 else 0),
          votes_of_call det fs)"
    using assms(2) soft_voting_eq[OF assms(3)]
    by (simp add: predict_def votes_of_call_def features_scaled_def Let_def)
  then show ?thesis
    using soft_score_lower_bound[OF assms(3,4)] soft_score_single[OF _ assms(4)]
    by auto
qed

text \<open>
  One model scoring -0.8 with threshold 1 gives score 1 and label anomaly; three
  models scoring -0.2, -0.8 and -0.4 give a score of at least 1/3.
\<close>

theorem soft_score_at_least_one_nth_witness:
  "predict (soft_example [- 8 / 10] 1) [1, 2, 3] = Inr (1, 1, [(''a'', Vote 0 (- 8 / 10))])
   \<and> (\<exists>sc lab. predict (soft_example [- 2 / 10, - 8 / 10, - 4 / 10] (5 / 10)) [1, 2, 3] =
          Inr (sc, lab, [(''a'', Vote 0 (- 2 / 10)), (''b'', Vote 0 (- 8 / 10)), (''c'', Vote 0 (- 4 / 10))])
        \<and> 1 / 3 \<le> sc)"
  using soft_score_at_least_one_nth[of "soft_example [- 8 / 10] 1" "[1, 2, 3]"]
    soft_score_at_least_one_nth[of "soft_example [- 2 / 10, - 8 / 10, - 4 / 10] (5 / 10)" "[1, 2, 3]"]
  by (simp add: votes_of_call_def soft_example_def features_scaled_def vote_of_def
      voting_models_def max_abs_score_def abs_scores_of_def)

subsection \<open>Weighted voting\<close>

text \<open>
  What \<open>weighted_voting\<close> returns in the exact arithmetic of the model. The lemmas
  serve the absence of a division by zero and the isolation of a failing model below.
\<close>

lemma weighted_loop_sums:
  assumes "models det \<noteq> []"
  shows "weighted_loop det mv (a, b) =
     Inr (a + sum_list (map (\<lambda>(n, v). \<bar>score v\<bar> * weight_of det n) (scoring mv)),
          b + sum_list (map (\<lambda>(n, v). weight_of det n) (scoring mv)))"
  using assms
proof (induction mv arbitrary: a b)
  case Nil
  then show ?case by (simp add: scoring_def)
next
  case (Cons p mv)
  obtain n v where p: "p = (n, v)" by (cases p)
  show ?case
    using Cons.prems Cons.IH[OF Cons.prems]
    by (simp add: p scoring_def truediv_def weight_of_def Let_def split: option.splits)
qed

lemma weight_of_pos: "models det \<noteq> [] \<Longrightarrow> 0 < weight_of det n"
  by (auto simp: weight_of_def MODEL_WEIGHTS_def split: option.splits if_splits)

lemma weight_sum_pos:
  assumes "models det \<noteq> []" "scoring mv \<noteq> []"
  shows "0 < sum_list (map (\<lambda>(n, v). weight_of det n) (scoring mv))"
proof -
  have "0 < sum_list (map (\<lambda>(n, v). weight_of det n) xs)" if "xs \<noteq> []" for xs :: "(string \<times> vote) list"
    using that
  proof (induction xs)
    case Nil
    then show ?case by simp
  next
    case (Cons p xs)
    obtain n v where p: "p = (n, v)" by (cases p)
    have "0 \<le> sum_list (map (\<lambda>(n, v). weight_of det n) xs)"
      by (rule sum_list_nonneg) (auto simp: less_imp_le[OF weight_of_pos[OF assms(1)]])
    then show ?case using weight_of_pos[OF assms(1), of n] by (simp add: p)
  qed
  then show ?thesis using assms(2) by simp
qed

lemma length_scoring: "length (scoring mv) = voting_models mv"
  unfolding scoring_def voting_models_def by (induction mv) auto

lemma abs_scores_scoring: "abs_scores_of mv = map (\<lambda>(n, v). \<bar>score v\<bar>) (scoring mv)"
  unfolding abs_scores_of_def scoring_def by (induction mv) auto

lemma py_max_default_Max: "xs \<noteq> [] \<Longrightarrow> py_max_default xs d = Max (set xs)"
  by (cases xs) (simp_all add: py_max_default_def foldl_max_Max del: set_simps)

lemma weighted_sum_zero:
  assumes "voting_models mv \<noteq> 0" "max_abs_score mv = 0"
  shows "sum_list (map (\<lambda>(n, v). \<bar>score v\<bar> * weight_of det n) (scoring mv)) = 0"
proof (rule sum_list_all_zero)
  fix s assume "s \<in> set (map (\<lambda>(n, v). \<bar>score v\<bar> * weight_of det n) (scoring mv))"
  then obtain n v where nv: "(n, v) \<in> set (scoring mv)" and s: "s = \<bar>score v\<bar> * weight_of det n"
    by auto
  have mem: "\<bar>score v\<bar> \<in> set (abs_scores_of mv)"
    using nv by (force simp: abs_scores_scoring)
  have "\<bar>score v\<bar> \<le> Max (set (abs_scores_of mv))" using mem by simp
  then have "\<bar>score v\<bar> = 0" using assms(2) by (simp add: max_abs_score_def)
  then show "s = 0" using s by simp
qed

lemma max_abs_score_nonneg: "voting_models mv \<noteq> 0 \<Longrightarrow> 0 \<le> max_abs_score mv"
proof -
  assume a: "voting_models mv \<noteq> 0"
  have ne: "abs_scores_of mv \<noteq> []" using a length_abs_scores[of mv] by auto
  have "max_abs_score mv \<in> set (abs_scores_of mv)"
    unfolding max_abs_score_def using ne by (intro Max_in) auto
  then show ?thesis by (rule abs_scores_nonneg)
qed

lemma weighted_voting_eq:
  assumes "models det \<noteq> []" "voting_models mv \<noteq> 0"
  shows "weighted_voting det mv =
     Inr (weighted_score det mv, if weighted_score det mv \<ge> threshold det then 1 else 0)"
proof -
  have ne: "abs_scores_of mv \<noteq> []" using assms(2) length_abs_scores[of mv] by auto
  have sne: "scoring mv \<noteq> []" using assms(2) length_scoring[of mv] by auto
  have wpos: "0 < sum_list (map (\<lambda>(n, v). weight_of det n) (scoring mv))"
    by (rule weight_sum_pos[OF assms(1) sne])
  show ?thesis
  proof (cases "max_abs_score mv = 0")
    case True
    show ?thesis
      using wpos True weighted_sum_zero[OF assms(2) True, of det] ne
      by (simp add: weighted_voting_def weighted_loop_sums[OF assms(1)] truediv_def Let_def
          py_max_default_Max weighted_score_def max_abs_score_def)
  next
    case False
    then have "0 < max_abs_score mv" using max_abs_score_nonneg[OF assms(2)] by simp
    then show ?thesis
      using wpos ne
      by (simp add: weighted_voting_def weighted_loop_sums[OF assms(1)] truediv_def Let_def
          py_max_default_Max weighted_score_def weighted_mean_def max_abs_score_def)
  qed
qed

lemma collect_votes_no_models: "collect_votes [] fs mv = mv"
  by simp

lemma votes_need_models: "votes_of_call det fs \<noteq> [] \<Longrightarrow> models det \<noteq> []"
  by (auto simp: votes_of_call_def)

lemma voting_need_models: "voting_models (votes_of_call det fs) \<noteq> 0 \<Longrightarrow> models det \<noteq> []"
  by (rule votes_need_models[of det fs]) (auto simp: voting_models_def)

subsection \<open>No division by zero\<close>

lemma predictions_empty: "voting_models mv = 0 \<Longrightarrow> predictions_of mv = []"
  using length_predictions[of mv] by simp

lemma abs_scores_empty: "voting_models mv = 0 \<Longrightarrow> abs_scores_of mv = []"
  using length_abs_scores[of mv] by simp

lemma scoring_empty: "voting_models mv = 0 \<Longrightarrow> scoring mv = []"
  using length_scoring[of mv] by simp

lemma weighted_loop_scoring: "weighted_loop det mv acc = weighted_loop det (scoring mv) acc"
proof (induction mv arbitrary: acc)
  case Nil
  show ?case by (simp add: scoring_def)
next
  case (Cons p mv)
  obtain n v where p: "p = (n, v)" by (cases p)
  obtain a b where acc: "acc = (a, b)" by (cases acc)
  have tl: "\<And>acc. weighted_loop det mv acc = weighted_loop det (filter (\<lambda>(n, v). is_Vote v) mv) acc"
    using Cons.IH by (simp add: scoring_def)
  show ?case
    by (simp add: p acc scoring_def tl Let_def split: sum.splits)
qed

lemma hard_voting_empty: "voting_models mv = 0 \<Longrightarrow> hard_voting mv = Inr (0, 0)"
  by (simp add: hard_voting_def predictions_empty)

lemma soft_voting_empty: "voting_models mv = 0 \<Longrightarrow> soft_voting det mv = Inr (0, 0)"
  by (simp add: soft_voting_def abs_scores_empty)

lemma weighted_voting_empty: "voting_models mv = 0 \<Longrightarrow> weighted_voting det mv = Inr (0, 0)"
  by (simp add: weighted_voting_def weighted_loop_scoring[of det mv] scoring_empty)

lemma weighted_voting_zero_weight:
  "weighted_loop det mv (0, 0) = Inr (ws, 0) \<Longrightarrow> weighted_voting det mv = Inr (0, 0)"
  by (simp add: weighted_voting_def)

lemma hard_voting_returns: "\<exists>r. hard_voting mv = Inr r"
  by (simp add: hard_voting_def Let_def truediv_def)

lemma soft_voting_returns: "\<exists>r. soft_voting det mv = Inr r"
  by (cases "voting_models mv = 0") (simp_all add: soft_voting_empty soft_voting_eq)

lemma weighted_voting_returns:
  "models det \<noteq> [] \<or> voting_models mv = 0 \<Longrightarrow> \<exists>r. weighted_voting det mv = Inr r"
  by (cases "voting_models mv = 0") (auto simp: weighted_voting_empty weighted_voting_eq)

lemma combine_no_zero_division:
  "combine det (votes_of_call det fs) \<noteq> Inl ZeroDivisionError
   \<and> combine det (votes_of_call det fs) \<noteq> Inl MeanOfEmptySlice"
proof -
  have w: "\<exists>r. weighted_voting det (votes_of_call det fs) = Inr r"
    by (rule weighted_voting_returns) (use voting_need_models[of det fs] in blast)
  show ?thesis
    using hard_voting_returns[of "votes_of_call det fs"]
      soft_voting_returns[of det "votes_of_call det fs"] w
    by (auto simp: combine_def)
qed

lemma predict_no_zero_division:
  "predict det fs \<noteq> Inl ZeroDivisionError \<and> predict det fs \<noteq> Inl MeanOfEmptySlice"
  using combine_no_zero_division[of det fs]
  by (auto simp: predict_def votes_of_call_def features_scaled_def Let_def split: sum.splits)

lemma predictions_scoring: "predictions_of (scoring mv) = predictions_of mv"
  unfolding predictions_of_def scoring_def by (induction mv) auto

lemma abs_scores_of_scoring: "abs_scores_of (scoring mv) = abs_scores_of mv"
  unfolding abs_scores_of_def scoring_def by (induction mv) auto

lemma scoring_idem: "scoring (scoring mv) = scoring mv"
  by (simp add: scoring_def)

lemma hard_voting_scoring: "hard_voting (scoring mv) = hard_voting mv"
  by (simp add: hard_voting_def predictions_scoring)

lemma soft_voting_scoring: "soft_voting det (scoring mv) = soft_voting det mv"
  by (simp add: soft_voting_def abs_scores_of_scoring)

lemma weighted_voting_scoring: "weighted_voting det (scoring mv) = weighted_voting det mv"
proof -
  have "weighted_loop det (scoring mv) (0, 0) = weighted_loop det mv (0, 0)"
    by (rule weighted_loop_scoring[symmetric])
  then show ?thesis
    unfolding weighted_voting_def abs_scores_of_scoring by simp
qed

lemma combine_scoring: "combine det (scoring mv) = combine det mv"
  by (simp add: combine_def hard_voting_scoring soft_voting_scoring weighted_voting_scoring)

lemma soft_voting_zero_max:
  assumes "voting_models mv \<noteq> 0" "max_abs_score mv = 0"
  shows "soft_voting det mv = Inr (0, if 0 \<ge> threshold det then 1 else 0)"
  using soft_voting_eq[OF assms(1), of det] assms(2) by (simp add: soft_score_def)

text \<open>
  Claim C9. \<open>predict\<close> never raises \<open>ZeroDivisionError\<close>, whatever the detector and
  the features. With no usable vote each strategy returns score 0 and label normal;
  soft voting with a zero maximum divides by 1; weighted voting returns (0, normal)
  when the total weight is zero; and every strategy depends on the scoring entries of
  the vote map only, so a model without a score is left out, not counted as a zero.
\<close>

theorem ensemble_never_divides_by_zero:
  "predict det fs \<noteq> Inl ZeroDivisionError
   \<and> (voting_models mv = 0 \<longrightarrow>
        hard_voting mv = Inr (0, 0) \<and> soft_voting det mv = Inr (0, 0)
        \<and> weighted_voting det mv = Inr (0, 0))
   \<and> (voting_models mv \<noteq> 0 \<and> max_abs_score mv = 0 \<longrightarrow>
        soft_voting det mv =
          Inr (sum_list (map (\<lambda>s. s / 1) (abs_scores_of mv)) / real (length (abs_scores_of mv)),
               if 0 \<ge> threshold det then 1 else 0))
   \<and> (\<forall>ws. weighted_loop det mv (0, 0) = Inr (ws, 0) \<longrightarrow> weighted_voting det mv = Inr (0, 0))
   \<and> combine det mv = combine det (scoring mv)"
proof -
  have a: "predict det fs \<noteq> Inl ZeroDivisionError" using predict_no_zero_division by blast
  have b: "voting_models mv = 0 \<longrightarrow>
        hard_voting mv = Inr (0, 0) \<and> soft_voting det mv = Inr (0, 0)
        \<and> weighted_voting det mv = Inr (0, 0)"
    by (simp add: hard_voting_empty soft_voting_empty weighted_voting_empty)
  have c: "voting_models mv \<noteq> 0 \<and> max_abs_score mv = 0 \<longrightarrow>
        soft_voting det mv =
          Inr (sum_list (map (\<lambda>s. s / 1) (abs_scores_of mv)) / real (length (abs_scores_of mv)),
               if 0 \<ge> threshold det then 1 else 0)"
  proof (intro impI, elim conjE)
    assume h: "voting_models mv \<noteq> 0" "max_abs_score mv = 0"
    have ne: "abs_scores_of mv \<noteq> []" using h(1) length_abs_scores[of mv] by auto
    show "soft_voting det mv =
          Inr (sum_list (map (\<lambda>s. s / 1) (abs_scores_of mv)) / real (length (abs_scores_of mv)),
               if 0 \<ge> threshold det then 1 else 0)"
      using soft_voting_zero_max[OF h] max_zero_sum_zero[OF ne h(2)] by simp
  qed
  have d: "\<forall>ws. weighted_loop det mv (0, 0) = Inr (ws, 0) \<longrightarrow> weighted_voting det mv = Inr (0, 0)"
    using weighted_voting_zero_weight by blast
  have e: "combine det mv = combine det (scoring mv)" by (simp add: combine_scoring)
  from a b c d e show ?thesis by blast
qed

subsection \<open>A failing model\<close>

text \<open>
  A vote map holding one failed model, and one holding a zero score beside a failed
  model.
\<close>

theorem ensemble_never_divides_by_zero_witness:
  "predict weighted_example [1, 2, 3] \<noteq> Inl ZeroDivisionError
   \<and> voting_models [(''a'', Failed ''boom'')] = 0
   \<and> hard_voting [(''a'', Failed ''boom'')] = Inr (0, 0)
   \<and> soft_voting weighted_example [(''a'', Failed ''boom'')] = Inr (0, 0)
   \<and> weighted_voting weighted_example [(''a'', Failed ''boom'')] = Inr (0, 0)
   \<and> max_abs_score [(''a'', Vote 0 0), (''b'', Failed ''boom'')] = 0
   \<and> soft_voting weighted_example [(''a'', Vote 0 0), (''b'', Failed ''boom'')] = Inr (0, 0)
   \<and> weighted_loop weighted_example [(''a'', Failed ''boom'')] (0, 0) = Inr (0, 0)"
  using ensemble_never_divides_by_zero[of weighted_example "[1, 2, 3]" "[(''a'', Failed ''boom'')]"]
    ensemble_never_divides_by_zero[of weighted_example "[1, 2, 3]"
      "[(''a'', Vote 0 0), (''b'', Failed ''boom'')]"]
  by (simp add: voting_models_def max_abs_score_def abs_scores_of_def weighted_example_def)

lemma update_fresh: "k \<notin> fst ` set al \<Longrightarrow> AList.update k v al = al @ [(k, v)]"
  by (induction al) auto

lemma collect_votes_distinct:
  "distinct (map fst mv @ map fst ms) \<Longrightarrow>
   collect_votes ms fs mv = mv @ map (\<lambda>(n, m). (n, vote_of (m fs))) ms"
proof (induction ms fs mv rule: collect_votes.induct)
  case (1 fs mv)
  show ?case by simp
next
  case (2 n m rest fs mv)
  have fresh: "n \<notin> fst ` set mv" using "2.prems" by auto
  have "distinct (map fst (mv @ [(n, vote_of (m fs))]) @ map fst rest)"
    using "2.prems" by auto
  then show ?case
    using "2.IH" by (simp add: update_fresh[OF fresh])
qed

lemma votes_of_call_distinct:
  "distinct (map fst (models det)) \<Longrightarrow> votes_of_call det fs = votes_in_order det fs"
  by (simp add: votes_of_call_def votes_in_order_def collect_votes_distinct)

lemma failed_recorded:
  assumes "distinct (map fst (models det))" "(n, m) \<in> set (models det)"
    and "m (features_scaled det fs) = Inl e"
  shows "map_of (votes_in_order det fs) n = Some (Failed e)"
proof -
  have d: "distinct (map fst (votes_in_order det fs))"
    using assms(1) by (simp add: votes_in_order_def comp_def case_prod_beta)
  have "(n, Failed e) \<in> set (votes_in_order det fs)"
    using assms(2,3) by (force simp: votes_in_order_def vote_of_def)
  then show ?thesis using d by simp
qed

lemma failed_not_scoring:
  "m (features_scaled det fs) = Inl e \<Longrightarrow>
   (n, vote_of (m (features_scaled det fs))) \<notin> set (scoring mv)"
  by (simp add: scoring_def vote_of_def)

lemma combine_returns:
  assumes "strategy det \<in> set ENSEMBLE_STRATEGIES"
  shows "\<exists>r. combine det (votes_of_call det fs) = Inr r"
proof -
  have w: "\<exists>r. weighted_voting det (votes_of_call det fs) = Inr r"
    by (rule weighted_voting_returns) (use voting_need_models[of det fs] in blast)
  show ?thesis
    using assms hard_voting_returns[of "votes_of_call det fs"]
      soft_voting_returns[of det "votes_of_call det fs"] w
    by (auto simp: combine_def ENSEMBLE_STRATEGIES_def)
qed

text \<open>
  Claim C7. For a detector with a valid strategy (as \<open>__init__\<close> guarantees), distinct
  model names (the keys of a dictionary) and a feature vector of length 3, \<open>predict\<close>
  returns a triple; each model that raised is entered in the vote map with its error
  text, is not among the scoring entries, and the score and label are those of the
  strategy applied to the scoring entries alone.
\<close>

theorem failing_model_is_isolated:
  assumes "strategy det \<in> set ENSEMBLE_STRATEGIES" "length fs = 3"
    and "distinct (map fst (models det))"
  shows "\<exists>sc lab. predict det fs = Inr (sc, lab, votes_in_order det fs)
           \<and> combine det (scoring (votes_in_order det fs)) = Inr (sc, lab)
           \<and> (\<forall>(n, m) \<in> set (models det). \<forall>e. m (features_scaled det fs) = Inl e \<longrightarrow>
                 map_of (votes_in_order det fs) n = Some (Failed e)
                 \<and> (n, Failed e) \<notin> set (scoring (votes_in_order det fs)))"
proof -
  obtain sc lab where r: "combine det (votes_of_call det fs) = Inr (sc, lab)"
    using combine_returns[OF assms(1), of fs] by auto
  have p: "predict det fs = Inr (sc, lab, votes_in_order det fs)"
    using assms(2) r votes_of_call_distinct[OF assms(3), of fs]
    by (simp add: predict_def votes_of_call_def features_scaled_def Let_def)
  have c: "combine det (scoring (votes_in_order det fs)) = Inr (sc, lab)"
    using r votes_of_call_distinct[OF assms(3), of fs] by (simp add: combine_scoring)
  have f: "\<forall>(n, m) \<in> set (models det). \<forall>e. m (features_scaled det fs) = Inl e \<longrightarrow>
                 map_of (votes_in_order det fs) n = Some (Failed e)
                 \<and> (n, Failed e) \<notin> set (scoring (votes_in_order det fs))"
    using failed_recorded[OF assms(3)] by (auto simp: scoring_def)
  from p c f show ?thesis by blast
qed

text \<open>
  The weighted example: the failing model is recorded and the result equals the result
  on the two scoring models.
\<close>

theorem failing_model_is_isolated_witness:
  "predict weighted_example [1, 2, 3] =
     Inr (13 / 22, 1,
          [(''isolation_forest_model.pkl'', Vote 1 (- 1 / 5)),
           (''custom_model.pkl'', Vote 0 (- 4 / 5)),
           (''broken_model.pkl'', Failed ''boom'')])
   \<and> combine weighted_example
        [(''isolation_forest_model.pkl'', Vote 1 (- 1 / 5)), (''custom_model.pkl'', Vote 0 (- 4 / 5))]
      = Inr (13 / 22, 1)"
proof -
  have v: "votes_in_order weighted_example [1, 2, 3] =
          [(''isolation_forest_model.pkl'', Vote 1 (- 1 / 5)),
           (''custom_model.pkl'', Vote 0 (- 4 / 5)),
           (''broken_model.pkl'', Failed ''boom'')]"
    by (simp add: weighted_example_def votes_in_order_def features_scaled_def vote_of_def)
  have s: "scoring (votes_in_order weighted_example [1, 2, 3]) =
          [(''isolation_forest_model.pkl'', Vote 1 (- 1 / 5)),
           (''custom_model.pkl'', Vote 0 (- 4 / 5))]"
    by (simp add: v scoring_def)
  have c: "combine weighted_example (scoring (votes_in_order weighted_example [1, 2, 3]))
             = Inr (13 / 22, 1)"
    by (simp add: s) (simp add: weighted_example_def combine_def weighted_voting_def truediv_def
        MODEL_WEIGHTS_def abs_scores_of_def py_max_default_def)
  have h: "strategy weighted_example \<in> set ENSEMBLE_STRATEGIES"
    "distinct (map fst (models weighted_example))"
    by (simp_all add: weighted_example_def ENSEMBLE_STRATEGIES_def)
  obtain sc lab where
    p: "predict weighted_example [1, 2, 3] = Inr (sc, lab, votes_in_order weighted_example [1, 2, 3])"
    and q: "combine weighted_example (scoring (votes_in_order weighted_example [1, 2, 3])) = Inr (sc, lab)"
    using failing_model_is_isolated[OF h(1) _ h(2), of "[1, 2, 3]"] by auto
  have e: "sc = 13 / 22" "lab = 1" using q c by simp_all
  have g1: "predict weighted_example [1, 2, 3] =
              Inr (13 / 22, 1, votes_in_order weighted_example [1, 2, 3])"
    using p unfolding e .
  have g2: "combine weighted_example
        [(''isolation_forest_model.pkl'', Vote 1 (- 1 / 5)), (''custom_model.pkl'', Vote 0 (- 4 / 5))]
      = Inr (13 / 22, 1)"
    using c unfolding s .
  show ?thesis using g1 g2 unfolding v by (rule conjI)
qed

subsection \<open>Configuration errors\<close>

lemma init_unknown_strategy:
  "lower s \<notin> set ENSEMBLE_STRATEGIES \<Longrightarrow> init listing sp sd s thr = Inl ValueError"
  by (simp add: init_def Let_def)

lemma predict_wrong_length: "length fs \<noteq> 3 \<Longrightarrow> predict det fs = Inl ValueError"
  by (simp add: predict_def)

lemma set_threshold_out_of_range:
  "thr < 0 \<or> 1 < thr \<Longrightarrow> set_threshold det thr = Inl ValueError"
  by (auto simp: set_threshold_def)

lemma set_threshold_in_range:
  "0 \<le> thr \<Longrightarrow> thr \<le> 1 \<Longrightarrow> set_threshold det thr = Inr (det\<lparr>threshold := thr\<rparr>)"
  by (simp add: set_threshold_def)

lemma lower_soft: "lower ''SoFt'' = ''soft''"
  by (simp add: lower_def lower_char_def)

text \<open>
  Claim C8. Constructing a detector with threshold 1.5 succeeds and stores 1.5, while
  \<open>set_threshold\<close> rejects the same value: the constructor misses the range check that
  its sibling makes.
\<close>

theorem init_accepts_threshold_out_of_range:
  "init (Some [(''isolation_forest_model.pkl'', Some always_normal)]) None None ''soft'' (3 / 2) =
     Inr \<lparr>strategy = ''soft'', threshold = 3 / 2,
          models = [(''isolation_forest_model.pkl'', always_normal)], scaler = None\<rparr>
   \<and> set_threshold
        \<lparr>strategy = ''soft'', threshold = 1 / 2,
         models = [(''isolation_forest_model.pkl'', always_normal)], scaler = None\<rparr> (3 / 2)
      = Inl ValueError"
  by (simp add: init_def load_models_def endswith_def ENSEMBLE_STRATEGIES_def lower_def
      lower_char_def set_threshold_def)

section \<open>Properties of the loop\<close>

subsection \<open>The temporal gate\<close>

lemma iteration_live:
  assumes "live t = Some s"
  shows "iteration sk st t =
     (\<lparr>anomaly_counter =
          (if raw_prediction st s = 1 \<and> surge_condition s then anomaly_counter st + 1 else 0),
       historical =
          (if raw_prediction st s = 0 then tail_rows 2000 (historical st @ [s]) else historical st),
       detected_anomalies =
          (if raw_prediction st s = 0 then detected_anomalies st
           else save_detected_anomaly (detected_anomalies st) (cpu_usage s) (memory_usage s)
                  (network_load s) (utcnow t) (save_raises t)),
       artifacts =
          (if length (if raw_prediction st s = 0 then tail_rows 2000 (historical st @ [s])
                      else historical st) \<ge> 30
              \<and> clock_check t - last_retrain_time st > 300
           then Some (fit_forest sk
                        (map (fit_scaler sk (if raw_prediction st s = 0
                                              then tail_rows 2000 (historical st @ [s])
                                              else historical st))
                             (if raw_prediction st s = 0 then tail_rows 2000 (historical st @ [s])
                              else historical st)),
                      fit_scaler sk (if raw_prediction st s = 0
                                     then tail_rows 2000 (historical st @ [s])
                                     else historical st))
           else artifacts st),
       last_retrain_time =
          (if length (if raw_prediction st s = 0 then tail_rows 2000 (historical st @ [s])
                      else historical st) \<ge> 30
              \<and> clock_check t - last_retrain_time st > 300
           then clock_done t else last_retrain_time st)\<rparr>,
      Some \<lparr>seen = s, model_prediction = raw_prediction st s, surge = surge_condition s,
            ai_status =
              (if raw_prediction st s = 1 \<and> surge_condition s
               then (if anomaly_counter st + 1 \<ge> ANOMALY_THRESHOLD then 1 else 0) else 0),
            retrained =
              (length (if raw_prediction st s = 0 then tail_rows 2000 (historical st @ [s])
                       else historical st) \<ge> 30
               \<and> clock_check t - last_retrain_time st > 300)\<rparr>)"
  using assms by (simp add: iteration_def Let_def)

lemma iteration_idle: "live t = None \<Longrightarrow> iteration sk st t = (st, None)"
  by (simp add: iteration_def)


lemma gate_counter:
  assumes "live t = Some s"
  shows "anomaly_counter (fst (iteration sk st t)) =
     (if raw_prediction st s = 1 \<and> surge_condition s then anomaly_counter st + 1 else 0)"
  by (simp add: iteration_live[OF assms])

lemma gate_alert:
  assumes "live t = Some s"
  shows "\<exists>rep. snd (iteration sk st t) = Some rep
           \<and> model_prediction rep = raw_prediction st s \<and> surge rep = surge_condition s
           \<and> ai_status rep =
               (if anomaly_counter (fst (iteration sk st t)) \<ge> ANOMALY_THRESHOLD then 1 else 0)"
  by (simp add: iteration_live[OF assms] ANOMALY_THRESHOLD_def)

lemma qualifying_step:
  assumes "qualifying (snd (iteration sk st t))"
  shows "anomaly_counter (fst (iteration sk st t)) = anomaly_counter st + 1
         \<and> alerts [snd (iteration sk st t)] = [alert_of_count (anomaly_counter st + 1)]"
proof (cases "live t")
  case None
  then show ?thesis using assms by (simp add: iteration_idle qualifying_def)
next
  case (Some s)
  then show ?thesis
    using assms
    by (simp add: iteration_live[OF Some] qualifying_def alerts_def alert_of_count_def
        ANOMALY_THRESHOLD_def split: if_splits)
qed

lemma alerts_Cons: "alerts (r # rs) = alerts [r] @ alerts rs"
  by (simp add: alerts_def)

lemma map_upt_shift:
  "map f [Suc 0..<Suc (Suc n)] = f (Suc 0) # map (\<lambda>k. f (Suc k)) [Suc 0..<Suc n]"
proof -
  have "[Suc 0..<Suc (Suc n)] = Suc 0 # map Suc [Suc 0..<Suc n]"
    by (simp add: map_Suc_upt upt_conv_Cons del: upt_Suc)
  then show ?thesis by (simp add: comp_def del: upt_Suc)
qed

lemma sustained_run:
  assumes "list_all qualifying (snd (run_pipeline sk st ts))"
  shows "alerts (snd (run_pipeline sk st ts)) =
           map (\<lambda>k. alert_of_count (anomaly_counter st + int k)) [1..<Suc (length ts)]
         \<and> anomaly_counter (fst (run_pipeline sk st ts)) = anomaly_counter st + int (length ts)"
  using assms
proof (induction ts arbitrary: st)
  case Nil
  show ?case by (simp add: alerts_def)
next
  case (Cons t ts)
  obtain st' r where it: "iteration sk st t = (st', r)" by (cases "iteration sk st t")
  obtain st'' rs where rn: "run_pipeline sk st' ts = (st'', rs)"
    by (cases "run_pipeline sk st' ts")
  have q: "qualifying r" and qs: "list_all qualifying rs"
    using Cons.prems by (simp_all add: it rn)
  have step: "anomaly_counter st' = anomaly_counter st + 1"
    "alerts [r] = [alert_of_count (anomaly_counter st + 1)]"
    using qualifying_step[of sk st t] q by (simp_all add: it)
  have ih: "alerts rs = map (\<lambda>k. alert_of_count (anomaly_counter st' + int k)) [1..<Suc (length ts)]"
    "anomaly_counter st'' = anomaly_counter st' + int (length ts)"
    using Cons.IH[of st'] qs by (simp_all add: rn)
  have "alerts (r # rs) =
          alert_of_count (anomaly_counter st + 1)
          # map (\<lambda>k. alert_of_count (anomaly_counter st + 1 + int k)) [1..<Suc (length ts)]"
    using alerts_Cons[of r rs] step(2) ih(1) by (simp add: step(1))
  also have "\<dots> = map (\<lambda>k. alert_of_count (anomaly_counter st + int k)) [1..<Suc (length (t # ts))]"
    by (simp add: map_upt_shift ac_simps del: upt_Suc)
  finally show ?case using ih(2) step(1) by (simp add: it rn)
qed

text \<open>
  Claim C1. On a pass with a live sample the counter becomes its old value plus 1 when
  the raw label is anomaly and the surge condition holds, and 0 otherwise; the alert
  written is 1 exactly when the new counter is at least \<open>ANOMALY_THRESHOLD\<close> (12).
  Over a run of passes that all qualify, started with the counter at 0, the k-th pass
  alerts exactly when k is at least 12: none of the first 11, and the 12th is the
  first.
\<close>

theorem temporal_gate:
  "(live t = Some s \<longrightarrow>
      anomaly_counter (fst (iteration sk st t)) =
        (if raw_prediction st s = 1 \<and> surge_condition s then anomaly_counter st + 1 else 0)
      \<and> (\<exists>rep. snd (iteration sk st t) = Some rep
            \<and> ai_status rep =
                (if anomaly_counter (fst (iteration sk st t)) \<ge> ANOMALY_THRESHOLD then 1 else 0)))
   \<and> (anomaly_counter st0 = 0 \<and> list_all qualifying (snd (run_pipeline sk st0 ts)) \<longrightarrow>
        alerts (snd (run_pipeline sk st0 ts)) =
          map (\<lambda>k. if int k \<ge> ANOMALY_THRESHOLD then 1 else 0) [1..<Suc (length ts)])"
proof -
  have a: "live t = Some s \<longrightarrow>
      anomaly_counter (fst (iteration sk st t)) =
        (if raw_prediction st s = 1 \<and> surge_condition s then anomaly_counter st + 1 else 0)
      \<and> (\<exists>rep. snd (iteration sk st t) = Some rep
            \<and> ai_status rep =
                (if anomaly_counter (fst (iteration sk st t)) \<ge> ANOMALY_THRESHOLD then 1 else 0))"
    using gate_counter[of t s sk st] gate_alert[of t s sk st] by blast
  have b: "anomaly_counter st0 = 0 \<and> list_all qualifying (snd (run_pipeline sk st0 ts)) \<longrightarrow>
        alerts (snd (run_pipeline sk st0 ts)) =
          map (\<lambda>k. if int k \<ge> ANOMALY_THRESHOLD then 1 else 0) [1..<Suc (length ts)]"
    using sustained_run[of sk st0 ts] by (auto simp: alert_of_count_def ANOMALY_THRESHOLD_def)
  from a b show ?thesis by blast
qed

lemma busy_step:
  "iteration steady_sklearn
     \<lparr>anomaly_counter = c, historical = [], detected_anomalies = a,
      artifacts = Some (\<lambda>s. - 1, id), last_retrain_time = 0\<rparr> busy_tick =
   (\<lparr>anomaly_counter = c + 1, historical = [],
     detected_anomalies = save_detected_anomaly a 50 20 100 ''t'' None,
     artifacts = Some (\<lambda>s. - 1, id), last_retrain_time = 0\<rparr>,
    Some \<lparr>seen = busy, model_prediction = 1, surge = True,
          ai_status = (if c + 1 \<ge> 12 then 1 else 0), retrained = False\<rparr>)"
  by (simp add: iteration_def Let_def busy_tick_def busy_def raw_prediction_def
      surge_condition_def CPU_SURGE_THRESHOLD_def ANOMALY_THRESHOLD_def)

lemma quiet_step:
  "iteration steady_sklearn
     \<lparr>anomaly_counter = c, historical = [], detected_anomalies = a,
      artifacts = Some (\<lambda>s. - 1, id), last_retrain_time = 0\<rparr> quiet_tick =
   (\<lparr>anomaly_counter = 0, historical = [],
     detected_anomalies = save_detected_anomaly a 5 20 100 ''t'' None,
     artifacts = Some (\<lambda>s. - 1, id), last_retrain_time = 0\<rparr>,
    Some \<lparr>seen = quiet, model_prediction = 1, surge = False,
          ai_status = 0, retrained = False\<rparr>)"
  by (simp add: iteration_def Let_def quiet_tick_def quiet_def raw_prediction_def
      surge_condition_def CPU_SURGE_THRESHOLD_def MEM_SURGE_THRESHOLD_def
      NET_SURGE_THRESHOLD_def)

text \<open>
  Twelve qualifying passes from counter 0 give eleven alerts 0 and then 1; from
  counter 11 a qualifying pass gives 12, and a pass without a surge gives 0.
\<close>

theorem temporal_gate_witness:
  "alerts (snd (run_pipeline steady_sklearn alarmed_state
          [busy_tick, busy_tick, busy_tick, busy_tick, busy_tick, busy_tick,
           busy_tick, busy_tick, busy_tick, busy_tick, busy_tick, busy_tick]))
     = [0, 0, 0, 0, 0, 0, 0, 0, 0, 0, 0, 1]
   \<and> anomaly_counter (fst (iteration steady_sklearn (alarmed_state\<lparr>anomaly_counter := 11\<rparr>) busy_tick)) = 12
   \<and> anomaly_counter (fst (iteration steady_sklearn (alarmed_state\<lparr>anomaly_counter := 11\<rparr>) quiet_tick)) = 0"
proof -
  have q: "list_all qualifying (snd (run_pipeline steady_sklearn alarmed_state
          [busy_tick, busy_tick, busy_tick, busy_tick, busy_tick, busy_tick,
           busy_tick, busy_tick, busy_tick, busy_tick, busy_tick, busy_tick]))"
    by (simp add: alarmed_state_def start_def busy_step qualifying_def)
  have c: "anomaly_counter alarmed_state = 0" by (simp add: alarmed_state_def start_def)
  have l: "live busy_tick = Some busy" "live quiet_tick = Some quiet"
    by (simp_all add: busy_tick_def quiet_tick_def)
  have r: "raw_prediction (alarmed_state\<lparr>anomaly_counter := 11\<rparr>) busy = 1"
    "raw_prediction (alarmed_state\<lparr>anomaly_counter := 11\<rparr>) quiet = 1"
    "surge_condition busy" "\<not> surge_condition quiet"
    by (simp_all add: raw_prediction_def alarmed_state_def start_def surge_condition_def
        busy_def quiet_def CPU_SURGE_THRESHOLD_def MEM_SURGE_THRESHOLD_def NET_SURGE_THRESHOLD_def)
  show ?thesis
    using temporal_gate[of busy_tick busy steady_sklearn "alarmed_state\<lparr>anomaly_counter := 11\<rparr>"
      alarmed_state
      "[busy_tick, busy_tick, busy_tick, busy_tick, busy_tick, busy_tick,
           busy_tick, busy_tick, busy_tick, busy_tick, busy_tick, busy_tick]"]
    temporal_gate[of quiet_tick quiet steady_sklearn "alarmed_state\<lparr>anomaly_counter := 11\<rparr>"
      alarmed_state "[]"]
    q c l r
    by (simp add: ANOMALY_THRESHOLD_def upt_conv_Cons del: upt_Suc)
qed

subsection \<open>Routing of samples\<close>
















subsection \<open>Retraining\<close>

lemma warm_step:
  "n < 2000 \<Longrightarrow>
   iteration sk (warm_state n) (late_tick now) =
   (\<lparr>anomaly_counter = 0, historical = replicate n quiet @ [quiet],
      detected_anomalies = Missing,
      artifacts = (if 29 \<le> n \<and> 300 < now
                   then Some (fit_forest sk (map (fit_scaler sk (replicate n quiet @ [quiet]))
                                               (replicate n quiet @ [quiet])),
                              fit_scaler sk (replicate n quiet @ [quiet]))
                   else None),
      last_retrain_time = (if 29 \<le> n \<and> 300 < now then now + 1 else 0)\<rparr>,
    Some \<lparr>seen = quiet, model_prediction = 0, surge = False, ai_status = 0,
          retrained = (29 \<le> n \<and> 300 < now)\<rparr>)"
  by (simp add: iteration_def Let_def warm_state_def late_tick_def start_def raw_prediction_def
      surge_condition_def quiet_def CPU_SURGE_THRESHOLD_def MEM_SURGE_THRESHOLD_def
      NET_SURGE_THRESHOLD_def tail_rows_def)

text \<open>
  Claim C3 as stated fails: with exactly 30 rows buffered and exactly 300 seconds
  elapsed since the last retrain, the pass does not retrain (the code compares with
  \<open>> 300\<close>).
\<close>

theorem retrain_at_exactly_300_counterexample:
  "length (historical (fst (iteration steady_sklearn (warm_state 29) (late_tick 300)))) = 30
   \<and> clock_check (late_tick 300) - last_retrain_time (warm_state 29) = 300
   \<and> snd (iteration steady_sklearn (warm_state 29) (late_tick 300)) =
       Some \<lparr>seen = quiet, model_prediction = 0, surge = False, ai_status = 0,
             retrained = False\<rparr>"
  by (simp add: warm_step) (simp add: late_tick_def warm_state_def start_def)

text \<open>
  Claim C3, amended. On a pass with a live sample, retraining fires exactly when the
  historical CSV after this pass's routing holds at least 30 rows and the time since the
  last retrain is strictly greater than 300 seconds; when it fires the scaler and the
  model are refitted on that buffer and \<open>last_retrain_time\<close> is reset, otherwise both
  are kept. A pass without a live sample changes nothing.
\<close>

theorem retrain_condition:
  "(live t = Some s \<longrightarrow>
      (\<exists>rep. snd (iteration sk st t) = Some rep
         \<and> (retrained rep \<longleftrightarrow>
              length (historical (fst (iteration sk st t))) \<ge> 30
              \<and> clock_check t - last_retrain_time st > 300)
         \<and> (retrained rep \<longrightarrow>
              last_retrain_time (fst (iteration sk st t)) = clock_done t
              \<and> artifacts (fst (iteration sk st t)) =
                  Some (fit_forest sk
                          (map (fit_scaler sk (historical (fst (iteration sk st t))))
                               (historical (fst (iteration sk st t)))),
                        fit_scaler sk (historical (fst (iteration sk st t)))))
         \<and> (\<not> retrained rep \<longrightarrow>
              last_retrain_time (fst (iteration sk st t)) = last_retrain_time st
              \<and> artifacts (fst (iteration sk st t)) = artifacts st)))
   \<and> (live t = None \<longrightarrow> iteration sk st t = (st, None))"
proof -
  have a: "live t = Some s \<longrightarrow>
      (\<exists>rep. snd (iteration sk st t) = Some rep
         \<and> (retrained rep \<longleftrightarrow>
              length (historical (fst (iteration sk st t))) \<ge> 30
              \<and> clock_check t - last_retrain_time st > 300)
         \<and> (retrained rep \<longrightarrow>
              last_retrain_time (fst (iteration sk st t)) = clock_done t
              \<and> artifacts (fst (iteration sk st t)) =
                  Some (fit_forest sk
                          (map (fit_scaler sk (historical (fst (iteration sk st t))))
                               (historical (fst (iteration sk st t)))),
                        fit_scaler sk (historical (fst (iteration sk st t)))))
         \<and> (\<not> retrained rep \<longrightarrow>
              last_retrain_time (fst (iteration sk st t)) = last_retrain_time st
              \<and> artifacts (fst (iteration sk st t)) = artifacts st))"
  proof
    assume l: "live t = Some s"
    show "\<exists>rep. snd (iteration sk st t) = Some rep
         \<and> (retrained rep \<longleftrightarrow>
              length (historical (fst (iteration sk st t))) \<ge> 30
              \<and> clock_check t - last_retrain_time st > 300)
         \<and> (retrained rep \<longrightarrow>
              last_retrain_time (fst (iteration sk st t)) = clock_done t
              \<and> artifacts (fst (iteration sk st t)) =
                  Some (fit_forest sk
                          (map (fit_scaler sk (historical (fst (iteration sk st t))))
                               (historical (fst (iteration sk st t)))),
                        fit_scaler sk (historical (fst (iteration sk st t)))))
         \<and> (\<not> retrained rep \<longrightarrow>
              last_retrain_time (fst (iteration sk st t)) = last_retrain_time st
              \<and> artifacts (fst (iteration sk st t)) = artifacts st)"
      by (cases "raw_prediction st s = 0") (simp_all add: iteration_live[OF l])
  qed
  have b: "live t = None \<longrightarrow> iteration sk st t = (st, None)"
    by (simp add: iteration_idle)
  from a b show ?thesis by blast
qed

text \<open>
  29 rows after 1000 seconds: no retrain. 30 rows after 301 seconds: retrain, and the
  timer is reset. No live sample: nothing happens.
\<close>

theorem retrain_condition_witness:
  "snd (iteration steady_sklearn (warm_state 28) (late_tick 1000)) =
       Some \<lparr>seen = quiet, model_prediction = 0, surge = False, ai_status = 0, retrained = False\<rparr>
   \<and> length (historical (fst (iteration steady_sklearn (warm_state 28) (late_tick 1000)))) = 29
   \<and> snd (iteration steady_sklearn (warm_state 29) (late_tick 301)) =
       Some \<lparr>seen = quiet, model_prediction = 0, surge = False, ai_status = 0, retrained = True\<rparr>
   \<and> length (historical (fst (iteration steady_sklearn (warm_state 29) (late_tick 301)))) = 30
   \<and> last_retrain_time (fst (iteration steady_sklearn (warm_state 29) (late_tick 301))) = 302
   \<and> iteration steady_sklearn (warm_state 29)
        \<lparr>live = None, clock_check = 1000, clock_done = 1000, utcnow = ''t'', save_raises = None\<rparr> = (warm_state 29, None)"
  using retrain_condition[of "late_tick 1000" quiet steady_sklearn "warm_state 28"]
    retrain_condition[of "late_tick 301" quiet steady_sklearn "warm_state 29"]
    retrain_condition[of "\<lparr>live = None, clock_check = 1000, clock_done = 1000, utcnow = ''t'', save_raises = None\<rparr>"
      quiet steady_sklearn "warm_state 29"]
  by (simp add: warm_step)

end
